theory Spec2Isabelle
  imports Complex_Main
begin

section \<open>Soil monitor dashboard: the Kalman/CUSUM engine\<close>

text \<open>
  The component \<open>SoilMonitorDashboard\<close> keeps its engine state in React state hooks and
  changes it from a timer callback and three buttons. The model below follows the source
  function by function. JavaScript numbers are IEEE-754 doubles; they are idealised here as
  real numbers with exact arithmetic, so rounding error, \<open>NaN\<close> and the infinities are
  outside the model. A JavaScript division by zero does not raise (it yields an infinity or
  \<open>NaN\<close>); HOL's \<open>x / 0 = 0\<close> is not that value, which is why the sign of
  every divisor is established separately below.
\<close>

subsection \<open>Kalman filter\<close>

record kalman_state =
  estimate :: real
  errorCovariance :: real
  processNoise :: real
  measurementNoise :: real
  innovation :: real

text \<open>The argument of \<open>useState\<close> for \<open>kalmanState\<close>.\<close>

definition kalman_init :: kalman_state where
  "kalman_init =
     \<lparr>estimate = 45, errorCovariance = 1, processNoise = 0.01,
      measurementNoise = 0.5, innovation = 0\<rparr>"

text \<open>
  \<open>kalmanFilter (measurement, state)\<close>: each \<open>const\<close> of the body is one definition, in
  the order of the source.
\<close>

definition predictedEstimate :: "kalman_state \<Rightarrow> real" where
  "predictedEstimate state = estimate state"

definition predictedErrorCov :: "kalman_state \<Rightarrow> real" where
  "predictedErrorCov state = errorCovariance state + processNoise state"

definition innovation_of :: "real \<Rightarrow> kalman_state \<Rightarrow> real" where
  "innovation_of measurement state = measurement - predictedEstimate state"

definition innovationCov :: "kalman_state \<Rightarrow> real" where
  "innovationCov state = predictedErrorCov state + measurementNoise state"

definition lambda :: "real \<Rightarrow> kalman_state \<Rightarrow> real" where
  "lambda measurement state =
     (innovation_of measurement state * innovation_of measurement state) / innovationCov state"

definition chiSquareThreshold :: real where
  "chiSquareThreshold = 3.84"

definition adaptiveProcessNoise :: "real \<Rightarrow> kalman_state \<Rightarrow> real" where
  "adaptiveProcessNoise measurement state =
     (if lambda measurement state > chiSquareThreshold
      then processNoise state * 2.5
      else 0.01)"

definition kalmanGain :: "kalman_state \<Rightarrow> real" where
  "kalmanGain state = predictedErrorCov state / innovationCov state"

definition newEstimate :: "real \<Rightarrow> kalman_state \<Rightarrow> real" where
  "newEstimate measurement state =
     predictedEstimate state + kalmanGain state * innovation_of measurement state"

definition newErrorCov :: "kalman_state \<Rightarrow> real" where
  "newErrorCov state = (1 - kalmanGain state) * predictedErrorCov state"

definition kalmanFilter :: "real \<Rightarrow> kalman_state \<Rightarrow> kalman_state" where
  "kalmanFilter measurement state =
     \<lparr>estimate = newEstimate measurement state,
      errorCovariance = newErrorCov state,
      processNoise = adaptiveProcessNoise measurement state,
      measurementNoise = measurementNoise state,
      innovation = innovation_of measurement state\<rparr>"

text \<open>The filter state after a sequence of measurements, oldest first, from the initial state.\<close>

definition kalman_run :: "real list \<Rightarrow> kalman_state" where
  "kalman_run ms = foldl (\<lambda>state m. kalmanFilter m state) kalman_init ms"

text \<open>
  The step as section 4.1 of the specification words it (predict, innovation, adaptive
  process-noise test, gain and update), for comparison with \<open>kalmanFilter\<close>.
\<close>

definition kalman_step_spec :: "real \<Rightarrow> kalman_state \<Rightarrow> kalman_state" where
  "kalman_step_spec m s =
     (let pCov = errorCovariance s + processNoise s;
          innov = m - estimate s;
          iCov = pCov + measurementNoise s;
          q = (if innov\<^sup>2 / iCov > 3.84 then processNoise s * 2.5 else 0.01);
          gain = pCov / iCov
      in \<lparr>estimate = estimate s + gain * innov,
          errorCovariance = (1 - gain) * pCov,
          processNoise = q,
          measurementNoise = measurementNoise s,
          innovation = innov\<rparr>)"

subsection \<open>CUSUM detector\<close>

record cumsum_state =
  positive :: real
  negative :: real

record anomaly_result =
  cumsum_r :: cumsum_state
  isAnomaly :: bool
  type :: string

definition detectAnomaly :: "real \<Rightarrow> cumsum_state \<Rightarrow> anomaly_result" where
  "detectAnomaly innov currentCumsum =
     (let delta = 0.5;
          threshold = 5;
          sPlus = max 0 (positive currentCumsum + innov - delta);
          sMinus = min 0 (negative currentCumsum + innov + delta);
          isAnomaly' = (sPlus > threshold \<or> sMinus < - threshold)
      in \<lparr>cumsum_r = \<lparr>positive = sPlus, negative = sMinus\<rparr>,
          isAnomaly = isAnomaly',
          type = (if sPlus > threshold then ''high''
                  else (if sMinus < - threshold then ''low'' else ''normal''))\<rparr>)"

subsection \<open>Range classifier\<close>

text \<open>
  The bands are two-element arrays, read at the indices 0 and 1. \<open>ranges\<close> is the object
  literal of \<open>getParameterStatus\<close>, with its six own properties in source order.
\<close>

record band =
  optimal :: "real list"
  warning :: "real list"

definition ranges :: "(string \<times> band) list" where
  "ranges =
     [(''moisture'', \<lparr>optimal = [40, 50], warning = [35, 55]\<rparr>),
      (''ph'', \<lparr>optimal = [6.5, 7.0], warning = [6.0, 7.5]\<rparr>),
      (''ec'', \<lparr>optimal = [1.0, 1.5], warning = [0.8, 1.8]\<rparr>),
      (''nitrogen'', \<lparr>optimal = [30, 40], warning = [25, 45]\<rparr>),
      (''phosphorus'', \<lparr>optimal = [15, 25], warning = [10, 30]\<rparr>),
      (''potassium'', \<lparr>optimal = [20, 30], warning = [15, 35]\<rparr>)]"

text \<open>
  \<open>ranges[parameter]\<close> is a property read on an object literal, so a name that is not an
  own property is looked up on \<open>Object.prototype\<close>. The names below are the properties
  every object inherits from there: functions, and for \<open>__proto__\<close> the prototype object
  itself. Each of them is truthy and has no property \<open>optimal\<close>.
\<close>

definition object_prototype_names :: "string list" where
  "object_prototype_names =
     [''constructor'', ''hasOwnProperty'', ''isPrototypeOf'', ''propertyIsEnumerable'',
      ''toLocaleString'', ''toString'', ''valueOf'', ''__proto__'',
      ''__defineGetter__'', ''__defineSetter__'', ''__lookupGetter__'', ''__lookupSetter__'']"

datatype property_value = Undefined | Own band | Inherited

definition ranges_get :: "string \<Rightarrow> property_value" where
  "ranges_get parameter =
     (case map_of ranges parameter of
        Some range' \<Rightarrow> Own range'
      | None \<Rightarrow> (if parameter \<in> set object_prototype_names then Inherited else Undefined))"

datatype js_error = TypeError

text \<open>
  \<open>getParameterStatus (value, parameter)\<close>. \<open>!range\<close> holds for \<open>undefined\<close> only; on
  an inherited value \<open>range.optimal\<close> is \<open>undefined\<close> and reading its index 0 throws.
\<close>

definition getParameterStatus :: "real \<Rightarrow> string \<Rightarrow> js_error + string" where
  "getParameterStatus v parameter =
     (case ranges_get parameter of
        Undefined \<Rightarrow> Inr ''unknown''
      | Inherited \<Rightarrow> Inl TypeError
      | Own range' \<Rightarrow>
          Inr (if v \<ge> optimal range' ! 0 \<and> v \<le> optimal range' ! 1 then ''optimal''
               else if v \<ge> warning range' ! 0 \<and> v \<le> warning range' ! 1 then ''warning''
               else ''critical''))"

subsection \<open>Component state\<close>

record current_values =
  moisture :: real
  ph :: real
  ec :: real
  nitrogen :: real
  potassium :: real
  phosphorus :: real

text \<open>One element of \<open>sensorData\<close>; the last three fields are \<open>ph\<close>, \<open>ec\<close>, \<open>nitrogen\<close>.\<close>

record reading =
  time :: string
  raw :: real
  filtered :: real
  reading_ph :: real
  reading_ec :: real
  reading_nitrogen :: real

text \<open>One element of \<open>alerts\<close>: \<open>id\<close>, \<open>type\<close>, \<open>message\<close>, \<open>timestamp\<close>, \<open>parameter\<close>, \<open>value\<close>.\<close>

record alert =
  alert_id :: int
  alert_type :: string
  message :: string
  timestamp :: string
  parameter :: string
  alert_value :: real

record system_stats =
  totalReadings :: nat
  anomaliesDetected :: nat
  dataAccuracy :: real

record monitor_state =
  sensorData :: "reading list"
  currentValues :: current_values
  alerts :: "alert list"
  isRunning :: bool
  cumsum :: cumsum_state
  systemStats :: system_stats
  kalmanState :: kalman_state

text \<open>The arguments of the seven \<open>useState\<close> calls.\<close>

definition initial_state :: monitor_state where
  "initial_state =
     \<lparr>sensorData = [],
      currentValues = \<lparr>moisture = 45, ph = 6.8, ec = 1.2, nitrogen = 35,
                       potassium = 25, phosphorus = 18\<rparr>,
      alerts = [],
      isRunning = False,
      cumsum = \<lparr>positive = 0, negative = 0\<rparr>,
      systemStats = \<lparr>totalReadings = 0, anomaliesDetected = 0, dataAccuracy = 0\<rparr>,
      kalmanState = kalman_init\<rparr>"

subsection \<open>The monitoring tick\<close>

text \<open>
  What a tick reads from outside the component: the clock (\<open>toLocaleTimeString\<close>,
  \<open>Date.now\<close>) and the values of its calls of \<open>Math.random\<close>, one field per call site.
\<close>

record tick_input =
  clock_time :: string
  clock_now :: int
  random_hasAnomaly :: real
  random_noise :: real
  random_offset :: real
  random_ph :: real
  random_ec :: real
  random_nitrogen :: real
  random_phosphorus :: real
  random_potassium :: real

text \<open>\<open>Math.round\<close> rounds to the nearest integer, a half towards plus infinity.\<close>

definition math_round :: "real \<Rightarrow> real" where
  "math_round x = of_int \<lfloor>x + 1 / 2\<rfloor>"

definition generateSensorReading :: "tick_input \<Rightarrow> real \<Rightarrow> real \<Rightarrow> bool \<Rightarrow> real" where
  "generateSensorReading inp baseValue variance anomaly =
     (let noise = (random_noise inp - 0.5) * variance;
          anomalyOffset = (if anomaly then (if random_offset inp > 0.5 then 20 else - 20) else 0)
      in max 0 (baseValue + noise + anomalyOffset))"

definition rawMoisture :: "tick_input \<Rightarrow> real" where
  "rawMoisture inp = generateSensorReading inp 45 5 (random_hasAnomaly inp < 0.04)"

definition newValues :: "tick_input \<Rightarrow> kalman_state \<Rightarrow> current_values" where
  "newValues inp newKalmanState =
     \<lparr>moisture = math_round (estimate newKalmanState * 10) / 10,
      ph = math_round ((6.8 + (random_ph inp - 0.5) * 0.4) * 10) / 10,
      ec = math_round ((1.2 + (random_ec inp - 0.5) * 0.2) * 10) / 10,
      nitrogen = math_round (35 + (random_nitrogen inp - 0.5) * 8),
      potassium = math_round (25 + (random_potassium inp - 0.5) * 6),
      phosphorus = math_round (18 + (random_phosphorus inp - 0.5) * 6)\<rparr>"

text \<open>The record a tick appends to \<open>sensorData\<close>.\<close>

definition tick_reading :: "tick_input \<Rightarrow> monitor_state \<Rightarrow> reading" where
  "tick_reading inp st =
     (let vals = newValues inp (kalmanFilter (rawMoisture inp) (kalmanState st))
      in \<lparr>time = clock_time inp,
          raw = math_round (rawMoisture inp * 10) / 10,
          filtered = moisture vals,
          reading_ph = ph vals,
          reading_ec = ec vals,
          reading_nitrogen = nitrogen vals\<rparr>)"

definition anomalyResult :: "tick_input \<Rightarrow> monitor_state \<Rightarrow> anomaly_result" where
  "anomalyResult inp st =
     detectAnomaly (innovation (kalmanFilter (rawMoisture inp) (kalmanState st))) (cumsum st)"

text \<open>The \<open>alertMsg\<close> a tick builds when its verdict is an anomaly.\<close>

definition alertMsg :: "tick_input \<Rightarrow> monitor_state \<Rightarrow> alert" where
  "alertMsg inp st =
     \<lparr>alert_id = clock_now inp,
      alert_type = (if type (anomalyResult inp st) = ''high'' then ''warning'' else ''critical''),
      message = (if type (anomalyResult inp st) = ''high''
                 then ''High moisture detected - Check irrigation system''
                 else ''Low moisture detected - Consider irrigation''),
      timestamp = clock_time inp,
      parameter = ''Soil Moisture'',
      alert_value = moisture (newValues inp (kalmanFilter (rawMoisture inp) (kalmanState st)))\<rparr>"

text \<open>\<open>xs.slice(-n)\<close> keeps the last \<open>n\<close> elements; \<open>xs.slice(0, n)\<close> is \<open>take n xs\<close>.\<close>

definition slice_last :: "nat \<Rightarrow> 'a list \<Rightarrow> 'a list" where
  "slice_last n xs = drop (length xs - n) xs"

text \<open>
  The body of the interval callback. The effect depends on \<open>kalmanState\<close> and \<open>cumsum\<close>,
  so the callback of each tick closes over their current values; the other three pieces of
  state are changed through updater functions of their previous values.
\<close>

definition tick :: "tick_input \<Rightarrow> monitor_state \<Rightarrow> monitor_state" where
  "tick inp st =
     (let newKalmanState = kalmanFilter (rawMoisture inp) (kalmanState st);
          result = anomalyResult inp st;
          stats = systemStats st;
          stats1 = (if isAnomaly result
                    then stats\<lparr>anomaliesDetected := anomaliesDetected stats + 1\<rparr>
                    else stats)
      in st\<lparr>kalmanState := newKalmanState,
            cumsum := cumsum_r result,
            currentValues := newValues inp newKalmanState,
            sensorData := slice_last 25 (sensorData st @ [tick_reading inp st]),
            alerts := (if isAnomaly result
                       then take 8 (alertMsg inp st # alerts st)
                       else alerts st),
            systemStats := stats1\<lparr>totalReadings := totalReadings stats1 + 1,
                                  dataAccuracy := min 100 (dataAccuracy stats1 + 0.1)\<rparr>\<rparr>)"

subsection \<open>Operator actions\<close>

definition clearAlerts :: "monitor_state \<Rightarrow> monitor_state" where
  "clearAlerts st = st\<lparr>alerts := []\<rparr>"

definition resetSystem :: "monitor_state \<Rightarrow> monitor_state" where
  "resetSystem st =
     st\<lparr>sensorData := [],
        alerts := [],
        cumsum := \<lparr>positive = 0, negative = 0\<rparr>,
        systemStats := \<lparr>totalReadings = 0, anomaliesDetected = 0, dataAccuracy = 0\<rparr>\<rparr>"

text \<open>The start/stop button: \<open>setIsRunning(!isRunning)\<close>.\<close>

definition toggleRunning :: "monitor_state \<Rightarrow> monitor_state" where
  "toggleRunning st = st\<lparr>isRunning := \<not> isRunning st\<rparr>"

text \<open>
  Everything that changes the state: a timer tick, which exists only while \<open>isRunning\<close>
  holds (the effect returns before \<open>setInterval\<close> otherwise), and the three buttons.
\<close>

datatype event = Tick tick_input | StartStop | ClearAlerts | ResetSystem

fun step :: "event \<Rightarrow> monitor_state \<Rightarrow> monitor_state" where
  "step (Tick inp) st = (if isRunning st then tick inp st else st)"
| "step StartStop st = toggleRunning st"
| "step ClearAlerts st = clearAlerts st"
| "step ResetSystem st = resetSystem st"

fun run :: "event list \<Rightarrow> monitor_state \<Rightarrow> monitor_state" where
  "run [] st = st"
| "run (e # es) st = run es (step e st)"

text \<open>The readings appended and the alerts raised during a run, oldest first.\<close>

fun readings :: "event list \<Rightarrow> monitor_state \<Rightarrow> reading list" where
  "readings [] st = []"
| "readings (Tick inp # es) st =
     (if isRunning st then [tick_reading inp st] else []) @ readings es (step (Tick inp) st)"
| "readings (e # es) st = readings es (step e st)"

fun raised :: "event list \<Rightarrow> monitor_state \<Rightarrow> alert list" where
  "raised [] st = []"
| "raised (Tick inp # es) st =
     (if isRunning st \<and> isAnomaly (anomalyResult inp st) then [alertMsg inp st] else [])
       @ raised es (step (Tick inp) st)"
| "raised (e # es) st = raised es (step e st)"

subsection \<open>Auxiliary notions for the proofs\<close>

text \<open>The conditions on a filter state under which a step divides by a positive number.\<close>

definition kalman_wf :: "kalman_state \<Rightarrow> bool" where
  "kalman_wf s \<longleftrightarrow> 0 \<le> errorCovariance s \<and> 0 < processNoise s \<and> 0 < measurementNoise s"

text \<open>
  What stays true while the measurement 45 is fed to the initial state: the estimate and
  both noise terms keep their values, and the error covariance stays at or above the
  positive root of \<open>P\<^sup>2 + P / 100 = 1 / 200\<close>, the fixed point of its recurrence.
\<close>

definition calm :: "kalman_state \<Rightarrow> bool" where
  "calm s \<longleftrightarrow> estimate s = 45 \<and> processNoise s = 1 / 100 \<and> measurementNoise s = 1 / 2
     \<and> 0 < errorCovariance s
     \<and> 1 / 200 \<le> errorCovariance s * errorCovariance s + errorCovariance s / 100"

text \<open>
  A tick the generator can produce: an injected anomaly (the first draw is below 0.04)
  with no noise (second draw 0.5) and a positive offset (third draw above 0.5), so the raw
  measurement is 65.
\<close>

definition spike_input :: tick_input where
  "spike_input =
     \<lparr>clock_time = ''12:00:00 PM'', clock_now = 1700000000000,
      random_hasAnomaly = 0.01, random_noise = 0.5, random_offset = 0.9,
      random_ph = 0.5, random_ec = 0.5, random_nitrogen = 0.5,
      random_phosphorus = 0.5, random_potassium = 0.5\<rparr>"

text \<open>Start monitoring, then 26 such ticks.\<close>

definition spike_run :: "event list" where
  "spike_run = StartStop # Tick spike_input # replicate 25 (Tick spike_input)"

text \<open>
  A running state whose estimate is at most 65 and whose upper CUSUM sum is far enough
  above the threshold to stay above it for \<open>k\<close> more ticks of \<open>spike_input\<close>.
\<close>

definition hot :: "nat \<Rightarrow> monitor_state \<Rightarrow> bool" where
  "hot k st \<longleftrightarrow> isRunning st \<and> kalman_wf (kalmanState st)
     \<and> estimate (kalmanState st) \<le> 65 \<and> 5 + real k / 2 < positive (cumsum st)"

section \<open>Properties of the filter\<close>

lemmas kalman_defs = kalmanFilter_def newEstimate_def newErrorCov_def adaptiveProcessNoise_def
  kalmanGain_def lambda_def innovationCov_def innovation_of_def predictedErrorCov_def
  predictedEstimate_def chiSquareThreshold_def

lemma kalman_run_snoc: "kalman_run (ms @ [m]) = kalmanFilter m (kalman_run ms)"
  by (simp add: kalman_run_def)

lemma newErrorCov_closed:
  assumes "innovationCov s \<noteq> 0"
  shows "newErrorCov s = measurementNoise s * predictedErrorCov s / innovationCov s"
proof -
  have "1 - kalmanGain s = measurementNoise s / innovationCov s"
    using assms by (simp add: kalmanGain_def innovationCov_def field_simps)
  then show ?thesis by (simp add: newErrorCov_def)
qed

lemma kalman_wf_innovationCov: "kalman_wf s \<Longrightarrow> 0 < innovationCov s"
  by (simp add: kalman_wf_def innovationCov_def predictedErrorCov_def)

lemma kalman_wf_step:
  assumes "kalman_wf s"
  shows "kalman_wf (kalmanFilter m s)"
proof -
  have pos: "0 < innovationCov s" using assms by (rule kalman_wf_innovationCov)
  have p: "0 \<le> predictedErrorCov s"
    using assms by (simp add: kalman_wf_def predictedErrorCov_def)
  have "0 \<le> measurementNoise s * predictedErrorCov s / innovationCov s"
    using assms pos p by (simp add: kalman_wf_def)
  then have "0 \<le> newErrorCov s" using pos by (simp add: newErrorCov_closed)
  moreover have "0 < adaptiveProcessNoise m s"
    using assms by (simp add: adaptiveProcessNoise_def kalman_wf_def)
  ultimately show ?thesis using assms by (simp add: kalman_wf_def kalmanFilter_def)
qed

lemma kalman_wf_init: "kalman_wf kalman_init"
  by (simp add: kalman_wf_def kalman_init_def)

lemma kalman_wf_run: "kalman_wf (kalman_run ms)"
proof (induction ms rule: rev_induct)
  case Nil
  show ?case by (simp add: kalman_run_def kalman_wf_init)
next
  case (snoc m ms)
  then show ?case by (simp add: kalman_run_snoc kalman_wf_step)
qed

lemma kalmanGain_unit:
  assumes "kalman_wf s"
  shows "0 \<le> kalmanGain s" and "kalmanGain s \<le> 1"
proof -
  have pos: "0 < innovationCov s" using assms by (rule kalman_wf_innovationCov)
  have p: "0 \<le> predictedErrorCov s" "predictedErrorCov s \<le> innovationCov s"
    using assms by (simp_all add: kalman_wf_def predictedErrorCov_def innovationCov_def)
  show "0 \<le> kalmanGain s" using pos p by (simp add: kalmanGain_def)
  show "kalmanGain s \<le> 1" using pos p by (simp add: kalmanGain_def)
qed

lemma estimate_below:
  assumes "kalman_wf s" and "estimate s \<le> m"
  shows "estimate (kalmanFilter m s) \<le> m"
proof -
  have "kalmanGain s * (m - estimate s) \<le> 1 * (m - estimate s)"
    using assms kalmanGain_unit(2) [OF assms(1)] by (intro mult_right_mono) simp_all
  then show ?thesis
    by (simp add: kalmanFilter_def newEstimate_def innovation_of_def predictedEstimate_def)
qed

lemma processNoise_step:
  "processNoise (kalmanFilter m s) = 0.01
   \<or> processNoise (kalmanFilter m s) = processNoise s * 2.5"
  by (simp add: kalmanFilter_def adaptiveProcessNoise_def)

lemma processNoise_run_power:
  "\<exists>k\<le>length ms. processNoise (kalman_run ms) = 0.01 * 2.5 ^ k"
proof (induction ms rule: rev_induct)
  case Nil
  show ?case by (simp add: kalman_run_def kalman_init_def)
next
  case (snoc m ms)
  then obtain k where k: "k \<le> length ms" "processNoise (kalman_run ms) = 0.01 * 2.5 ^ k"
    by blast
  from processNoise_step [of m "kalman_run ms"]
  show ?case
  proof
    assume "processNoise (kalmanFilter m (kalman_run ms)) = 0.01"
    then have "processNoise (kalman_run (ms @ [m])) = 0.01 * 2.5 ^ 0"
      by (simp add: kalman_run_snoc)
    then show ?thesis by blast
  next
    assume "processNoise (kalmanFilter m (kalman_run ms)) = processNoise (kalman_run ms) * 2.5"
    then have "processNoise (kalman_run (ms @ [m])) = 0.01 * 2.5 ^ Suc k"
      using k by (simp add: kalman_run_snoc)
    moreover have "Suc k \<le> length (ms @ [m])" using k by simp
    ultimately show ?thesis by blast
  qed
qed

subsection \<open>The constant stream 45\<close>

lemma calm_init: "calm kalman_init"
  by (simp add: calm_def kalman_init_def)

lemma calmD:
  assumes "calm s"
  shows "estimate s = 45" and "processNoise s = 1 / 100" and "measurementNoise s = 1 / 2"
    and "0 < errorCovariance s"
    and "1 / 200 \<le> errorCovariance s * errorCovariance s + errorCovariance s / 100"
  using assms unfolding calm_def by blast+

lemma calm_errorCov:
  assumes "calm s"
  shows "errorCovariance (kalmanFilter 45 s)
           = ((errorCovariance s + 1 / 100) / 2) / (errorCovariance s + 51 / 100)"
proof -
  have ic: "innovationCov s = errorCovariance s + 51 / 100"
    by (simp add: calmD(2,3) [OF assms] innovationCov_def predictedErrorCov_def)
  have "innovationCov s \<noteq> 0"
    unfolding ic using calmD(4) [OF assms] by simp
  then have "newErrorCov s = measurementNoise s * predictedErrorCov s / innovationCov s"
    by (rule newErrorCov_closed)
  then show ?thesis
    by (simp add: kalmanFilter_def ic calmD(2,3) [OF assms] predictedErrorCov_def)
qed

lemma calm_step_le:
  assumes "calm s"
  shows "errorCovariance (kalmanFilter 45 s) \<le> errorCovariance s"
proof -
  let ?P = "errorCovariance s"
  have pos: "0 < ?P + 51 / 100" using calmD(4) [OF assms] by simp
  have "(?P + 1 / 100) / 2 \<le> ?P * (?P + 51 / 100)"
    using calmD(5) [OF assms] by (simp add: algebra_simps)
  then have "((?P + 1 / 100) / 2) / (?P + 51 / 100) \<le> ?P"
    using pos by (simp only: pos_divide_le_eq)
  then show ?thesis by (simp only: calm_errorCov [OF assms])
qed

lemma calm_step:
  assumes "calm s"
  shows "calm (kalmanFilter 45 s)"
proof -
  let ?P = "errorCovariance s"
  let ?P' = "errorCovariance (kalmanFilter 45 s)"
  have P: "0 < ?P" and g: "1 / 200 \<le> ?P * ?P + ?P / 100"
    by (rule calmD [OF assms])+
  define a where "a = (?P + 1 / 100) / 2"
  define d where "d = ?P + 51 / 100"
  have d: "0 < d" and a: "0 < a" using P by (simp_all add: d_def a_def)
  have P': "?P' = a / d" unfolding a_def d_def using assms by (rule calm_errorCov)
  have P'pos: "0 < ?P'" unfolding P' using a d by simp
  have "a * a + a * d / 100 - (d * d) / 200 = (?P * ?P + ?P / 100 - 1 / 200) / 4"
    unfolding a_def d_def by (simp add: field_simps)
  moreover have "0 \<le> (?P * ?P + ?P / 100 - 1 / 200) / 4" using g by simp
  ultimately have "0 \<le> a * a + a * d / 100 - (d * d) / 200" by (simp only:)
  then have num: "(d * d) / 200 \<le> a * a + a * d / 100" by simp
  have "(a / d) * (a / d) + (a / d) / 100 = (a * a + a * d / 100) / (d * d)"
    using d by (simp add: field_simps)
  moreover have "1 / 200 \<le> (a * a + a * d / 100) / (d * d)"
  proof -
    have "0 < d * d" using d by simp
    then show ?thesis using num by (simp only: pos_le_divide_eq)
  qed
  ultimately have g': "1 / 200 \<le> ?P' * ?P' + ?P' / 100" by (simp only: P')
  have "lambda 45 s = 0"
    by (simp add: calmD(1) [OF assms] lambda_def innovation_of_def predictedEstimate_def)
  then have "processNoise (kalmanFilter 45 s) = 1 / 100"
    by (simp add: kalmanFilter_def adaptiveProcessNoise_def chiSquareThreshold_def)
  moreover have "estimate (kalmanFilter 45 s) = 45"
    by (simp add: calmD(1) [OF assms] kalmanFilter_def newEstimate_def innovation_of_def
        predictedEstimate_def)
  moreover have "measurementNoise (kalmanFilter 45 s) = 1 / 2"
    by (simp add: calmD(3) [OF assms] kalmanFilter_def)
  ultimately show ?thesis using P'pos g' unfolding calm_def by blast
qed

lemma kalman_run_replicate_Suc:
  "kalman_run (replicate (Suc n) m) = kalmanFilter m (kalman_run (replicate n m))"
  by (simp only: replicate_Suc replicate_append_same [symmetric] kalman_run_snoc)

lemma calm_run: "calm (kalman_run (replicate n 45))"
proof (induction n)
  case 0
  show ?case by (simp add: kalman_run_def calm_init)
next
  case (Suc n)
  then show ?case by (simp only: kalman_run_replicate_Suc calm_step)
qed

section \<open>Properties of the detector and of the classifier\<close>

lemma detectAnomaly_positive:
  "positive (cumsum_r (detectAnomaly x c)) = max 0 (positive c + x - 1 / 2)"
  by (simp add: detectAnomaly_def Let_def)

lemma detectAnomaly_negative:
  "negative (cumsum_r (detectAnomaly x c)) = min 0 (negative c + x + 1 / 2)"
  by (simp add: detectAnomaly_def Let_def)

lemma detectAnomaly_high:
  "5 < positive (cumsum_r (detectAnomaly x c)) \<Longrightarrow> isAnomaly (detectAnomaly x c)"
  by (auto simp add: detectAnomaly_def Let_def max_def split: if_splits)




text \<open>
  An inherited name is not \<open>undefined\<close>, so the guard does not return; the read of
  index 0 of its missing \<open>optimal\<close> property throws.
\<close>

lemma getParameterStatus_inherited:
  "getParameterStatus v ''constructor'' = Inl TypeError"
  by (simp add: getParameterStatus_def ranges_get_def ranges_def object_prototype_names_def)

section \<open>Properties of the component\<close>

lemma isRunning_tick: "isRunning (tick inp st) = isRunning st"
  by (simp add: tick_def Let_def)

lemma kalmanState_tick:
  "kalmanState (tick inp st) = kalmanFilter (rawMoisture inp) (kalmanState st)"
  by (simp add: tick_def Let_def)

lemma cumsum_tick: "cumsum (tick inp st) = cumsum_r (anomalyResult inp st)"
  by (simp add: tick_def Let_def)

lemma sensorData_tick:
  "sensorData (tick inp st) = slice_last 25 (sensorData st @ [tick_reading inp st])"
  by (simp add: tick_def Let_def)

lemma alerts_tick:
  "alerts (tick inp st) =
     (if isAnomaly (anomalyResult inp st) then take 8 (alertMsg inp st # alerts st)
      else alerts st)"
  by (simp add: tick_def Let_def)

lemma resetSystem_fields:
  "sensorData (resetSystem st) = []"
  "alerts (resetSystem st) = []"
  "cumsum (resetSystem st) = \<lparr>positive = 0, negative = 0\<rparr>"
  "systemStats (resetSystem st) = \<lparr>totalReadings = 0, anomaliesDetected = 0, dataAccuracy = 0\<rparr>"
  "kalmanState (resetSystem st) = kalmanState st"
  "currentValues (resetSystem st) = currentValues st"
  "isRunning (resetSystem st) = isRunning st"
  by (simp_all add: resetSystem_def)

lemma kalman_wf_step_event:
  "kalman_wf (kalmanState st) \<Longrightarrow> kalman_wf (kalmanState (step e st))"
  by (cases e)
     (simp_all add: kalmanState_tick kalman_wf_step toggleRunning_def clearAlerts_def
        resetSystem_def)

lemma kalman_wf_run_events:
  "kalman_wf (kalmanState st) \<Longrightarrow> kalman_wf (kalmanState (run es st))"
  by (induction es arbitrary: st) (simp_all add: kalman_wf_step_event)

subsection \<open>The two bounded lists\<close>

lemma slice_last_append: "slice_last n (slice_last n xs @ ys) = slice_last n (xs @ ys)"
proof (cases "n \<le> length xs")
  case True
  then show ?thesis by (simp add: slice_last_def ac_simps)
next
  case False
  then show ?thesis by (simp add: slice_last_def)
qed

lemma take_append_take: "take n (xs @ take n ys) = take n (xs @ ys)"
  by (simp add: min_def)

lemma sensorData_run:
  "ResetSystem \<notin> set es \<Longrightarrow>
   sensorData (run es st) =
     (if readings es st = [] then sensorData st
      else slice_last 25 (sensorData st @ readings es st))"
proof (induction es arbitrary: st)
  case Nil
  show ?case by simp
next
  case (Cons e es)
  then have IH: "\<And>st'. sensorData (run es st') =
     (if readings es st' = [] then sensorData st'
      else slice_last 25 (sensorData st' @ readings es st'))"
    by simp
  show ?case
  proof (cases e)
    case (Tick inp)
    then show ?thesis
      using IH [of "tick inp st"] IH [of st]
      by (simp add: sensorData_tick slice_last_append)
  next
    case StartStop
    then show ?thesis using IH [of "toggleRunning st"] by (simp add: toggleRunning_def)
  next
    case ClearAlerts
    then show ?thesis using IH [of "clearAlerts st"] by (simp add: clearAlerts_def)
  next
    case ResetSystem
    with Cons.prems show ?thesis by simp
  qed
qed

lemma alerts_run:
  "ResetSystem \<notin> set es \<Longrightarrow> ClearAlerts \<notin> set es \<Longrightarrow>
   alerts (run es st) =
     (if raised es st = [] then alerts st
      else take 8 (rev (raised es st) @ alerts st))"
proof (induction es arbitrary: st)
  case Nil
  show ?case by simp
next
  case (Cons e es)
  then have IH: "\<And>st'. alerts (run es st') =
     (if raised es st' = [] then alerts st'
      else take 8 (rev (raised es st') @ alerts st'))"
    by simp
  show ?case
  proof (cases e)
    case (Tick inp)
    show ?thesis
    proof (cases "isRunning st")
      case False
      with Tick show ?thesis using IH [of st] by simp
    next
      case running: True
      let ?st' = "tick inp st"
      have run_eq: "run (e # es) st = run es ?st'" using Tick running by simp
      show ?thesis
      proof (cases "isAnomaly (anomalyResult inp st)")
        case False
        then have "alerts ?st' = alerts st" by (simp add: alerts_tick)
        moreover have "raised (e # es) st = raised es ?st'"
          using Tick running False by simp
        ultimately show ?thesis using IH [of ?st'] by (simp only: run_eq)
      next
        case True
        then have a: "alerts ?st' = take 8 (alertMsg inp st # alerts st)"
          by (simp only: alerts_tick if_True)
        have r: "raised (e # es) st = alertMsg inp st # raised es ?st'"
          using Tick running True by simp
        have "alerts (run es ?st') = take 8 (rev (raised es ?st') @ alertMsg inp st # alerts st)"
        proof (cases "raised es ?st' = []")
          case True
          then have "alerts (run es ?st') = alerts ?st'" by (simp add: IH [of ?st'])
          with True show ?thesis by (simp only: a rev.simps append_Nil)
        next
          case False
          then have "alerts (run es ?st') = take 8 (rev (raised es ?st') @ alerts ?st')"
            by (simp add: IH [of ?st'])
          then show ?thesis by (simp only: a take_append_take)
        qed
        then show ?thesis by (simp only: run_eq r) simp
      qed
    qed
  next
    case StartStop
    then show ?thesis using IH [of "toggleRunning st"] by (simp add: toggleRunning_def)
  next
    case ClearAlerts
    with Cons.prems show ?thesis by simp
  next
    case ResetSystem
    with Cons.prems show ?thesis by simp
  qed
qed

subsection \<open>A run of 26 anomalous ticks\<close>

lemma rawMoisture_spike: "rawMoisture spike_input = 65"
  by (simp add: rawMoisture_def generateSensorReading_def spike_input_def)

lemma hot_tick:
  assumes "hot (Suc k) st"
  shows "isAnomaly (anomalyResult spike_input st)" and "hot k (tick spike_input st)"
proof -
  let ?s = "kalmanState st"
  have wf: "kalman_wf ?s" and le: "estimate ?s \<le> 65" and running: "isRunning st"
    and c: "5 + real (Suc k) / 2 < positive (cumsum st)"
    using assms by (simp_all add: hot_def)
  have innov: "0 \<le> innovation (kalmanFilter 65 ?s)"
    using le by (simp add: kalmanFilter_def innovation_of_def predictedEstimate_def)
  let ?p = "positive (cumsum_r (anomalyResult spike_input st))"
  have c': "5 + real k / 2 + 1 / 2 < positive (cumsum st)"
    using c by (simp add: add_divide_distrib)
  have "?p = max 0 (positive (cumsum st) + innovation (kalmanFilter 65 ?s) - 1 / 2)"
    by (simp add: anomalyResult_def rawMoisture_spike detectAnomaly_positive)
  then have p: "5 + real k / 2 < ?p" using c' innov by linarith
  have "0 \<le> real k / 2" by simp
  with p have "5 < ?p" by linarith
  then show "isAnomaly (anomalyResult spike_input st)"
    unfolding anomalyResult_def by (rule detectAnomaly_high)
  have "estimate (kalmanFilter 65 ?s) \<le> 65" using wf le by (rule estimate_below)
  then show "hot k (tick spike_input st)"
    using running p wf
    by (simp add: hot_def isRunning_tick kalmanState_tick cumsum_tick rawMoisture_spike
        kalman_wf_step)
qed

lemma raised_hot: "hot k st \<Longrightarrow> length (raised (replicate k (Tick spike_input)) st) = k"
proof (induction k arbitrary: st)
  case 0
  show ?case by simp
next
  case (Suc k)
  from hot_tick [OF Suc.prems] Suc.IH [of "tick spike_input st"] Suc.prems
  show ?case by (simp add: hot_def)
qed

lemma readings_running:
  "isRunning st \<Longrightarrow> length (readings (replicate k (Tick inp)) st) = k"
  by (induction k arbitrary: st) (simp_all add: isRunning_tick)

lemmas tick_defs = initial_state_def toggleRunning_def tick_def Let_def spike_input_def
  rawMoisture_def generateSensorReading_def kalman_init_def kalman_defs anomalyResult_def
  detectAnomaly_def

lemma hot_first: "hot 25 (tick spike_input (toggleRunning initial_state))"
  by (simp add: hot_def kalman_wf_def tick_defs)

lemma first_alarm: "isAnomaly (anomalyResult spike_input (toggleRunning initial_state))"
  by (simp add: tick_defs)

lemma spike_raised: "length (raised spike_run initial_state) = 26"
  using raised_hot [OF hot_first] first_alarm
  by (simp add: spike_run_def toggleRunning_def initial_state_def)

lemma spike_readings: "length (readings spike_run initial_state) = 26"
  using readings_running [of "tick spike_input (toggleRunning initial_state)" 25 spike_input]
  by (simp add: spike_run_def isRunning_tick toggleRunning_def initial_state_def)

section \<open>The claims\<close>

text \<open>
  C1. Reset is claimed to put all engine state back to its defaults, the filter state
  included. \<open>resetSystem\<close> calls the setters of the history, the alerts, the CUSUM sums and
  the counters, and never \<open>setKalmanState\<close>. After the start button and one tick with raw
  measurement 65, a reset leaves the filter state of that tick in place: estimate
  \<open>8815 / 151\<close>, error covariance \<open>101 / 302\<close>, process noise 0.025, innovation 20.
  The four pieces of state that \<open>resetSystem\<close> does set are at their defaults.
\<close>

theorem resetSystem_keeps_kalmanState:
  "kalmanState (resetSystem (run [StartStop, Tick spike_input] initial_state)) =
     \<lparr>estimate = 8815 / 151, errorCovariance = 101 / 302, processNoise = 0.025,
      measurementNoise = 0.5, innovation = 20\<rparr>
   \<and> kalmanState (resetSystem (run [StartStop, Tick spike_input] initial_state)) \<noteq> kalman_init
   \<and> sensorData (resetSystem (run [StartStop, Tick spike_input] initial_state)) = []
   \<and> alerts (resetSystem (run [StartStop, Tick spike_input] initial_state)) = []
   \<and> cumsum (resetSystem (run [StartStop, Tick spike_input] initial_state))
       = \<lparr>positive = 0, negative = 0\<rparr>
   \<and> systemStats (resetSystem (run [StartStop, Tick spike_input] initial_state))
       = \<lparr>totalReadings = 0, anomaliesDetected = 0, dataAccuracy = 0\<rparr>"
proof -
  have k: "kalmanState (run [StartStop, Tick spike_input] initial_state) =
     \<lparr>estimate = 8815 / 151, errorCovariance = 101 / 302, processNoise = 0.025,
      measurementNoise = 0.5, innovation = 20\<rparr>"
    by (simp add: initial_state_def toggleRunning_def kalmanState_tick rawMoisture_spike
        kalman_init_def kalman_defs)
  have "estimate (kalmanState (run [StartStop, Tick spike_input] initial_state))
          \<noteq> estimate kalman_init"
    unfolding k by (simp add: kalman_init_def)
  then have "kalmanState (run [StartStop, Tick spike_input] initial_state) \<noteq> kalman_init"
    by auto
  with k show ?thesis by (simp only: resetSystem_fields) simp
qed

text \<open>
  C2, as amended. The process noise of a step is 2.5 times the previous process noise when
  \<open>lambda\<close> exceeds 3.84 and 0.01 otherwise, so after any sequence of measurements from the
  initial state it is \<open>0.01 \<times> 2.5\<^sup>k\<close> for some \<open>k\<close> not above the number of
  measurements: 0.01, 0.025, 0.0625 and so on, not two levels only.
\<close>

theorem processNoise_geometric:
  "processNoise (kalmanFilter m s)
     = (if lambda m s > 3.84 then processNoise s * 2.5 else 0.01)
   \<and> (\<exists>k\<le>length ms. processNoise (kalman_run ms) = 0.01 * 2.5 ^ k)"
  using processNoise_run_power [of ms]
  by (simp add: kalmanFilter_def adaptiveProcessNoise_def chiSquareThreshold_def)

text \<open>
  C2 as stated fails: the measurements 65 and then 45, both of which the generator can
  produce, are two surprising innovations in a row (20, then about -13.4), and the process
  noise after them is 0.0625.
\<close>

theorem processNoise_two_level_counterexample:
  "processNoise (kalman_run [65, 45]) = 0.0625
   \<and> processNoise (kalman_run [65, 45]) \<noteq> 0.01
   \<and> processNoise (kalman_run [65, 45]) \<noteq> 0.025"
  by (simp add: kalman_run_def kalman_init_def kalman_defs)

text \<open>
  C3. For every measurement and every prior state, \<open>kalmanFilter\<close> returns the state that
  the algorithm of the specification gives: predicted covariance, innovation, innovation
  covariance, the process-noise test against 3.84, gain, updated estimate and covariance,
  measurement noise unchanged. Both sides contain the same two quotients by the innovation
  covariance.
\<close>

theorem kalmanFilter_refines_spec: "kalmanFilter m s = kalman_step_spec m s"
  by (simp add: kalman_defs kalman_step_spec_def Let_def power2_eq_square)

text \<open>
  C4. One CUSUM step returns \<open>positive = max 0 (positive + x - 0.5)\<close> and
  \<open>negative = min 0 (negative + x + 0.5)\<close>, reports an anomaly exactly when the new
  \<open>positive\<close> exceeds 5 or the new \<open>negative\<close> is below -5, and the direction is high in
  the first case, else low in the second, else normal.
\<close>

theorem detectAnomaly_cusum:
  "positive (cumsum_r (detectAnomaly x c)) = max 0 (positive c + x - 0.5)
   \<and> negative (cumsum_r (detectAnomaly x c)) = min 0 (negative c + x + 0.5)
   \<and> isAnomaly (detectAnomaly x c) =
       (positive (cumsum_r (detectAnomaly x c)) > 5
        \<or> negative (cumsum_r (detectAnomaly x c)) < - 5)
   \<and> type (detectAnomaly x c) =
       (if positive (cumsum_r (detectAnomaly x c)) > 5 then ''high''
        else if negative (cumsum_r (detectAnomaly x c)) < - 5 then ''low''
        else ''normal'')"
  by (auto simp add: detectAnomaly_def Let_def max_def min_def)



text \<open>
  C6. In a run without a reset in which more than 25 readings have been appended, the
  history has exactly 25 elements and they are the last 25 readings appended, oldest first.
  In a run without a reset or a clear in which more than 8 alerts have been raised, the
  alert list has exactly 8 elements and they are the last 8 alerts raised, newest first.
  The run starts in any state and may contain any other event.
\<close>

theorem bounded_containers:
  "(ResetSystem \<notin> set es \<and> 25 < length (readings es st) \<longrightarrow>
      length (sensorData (run es st)) = 25
      \<and> sensorData (run es st) = drop (length (readings es st) - 25) (readings es st))
   \<and> (ResetSystem \<notin> set es \<and> ClearAlerts \<notin> set es \<and> 8 < length (raised es st) \<longrightarrow>
      length (alerts (run es st)) = 8
      \<and> alerts (run es st) = take 8 (rev (raised es st)))"
proof (intro conjI impI)
  assume h: "ResetSystem \<notin> set es \<and> 25 < length (readings es st)"
  then have len: "25 < length (readings es st)" and ne: "readings es st \<noteq> []" by auto
  from h have eq: "sensorData (run es st) = slice_last 25 (sensorData st @ readings es st)"
    by (simp add: sensorData_run ne)
  have "length (sensorData st) + length (readings es st) - 25
          = length (sensorData st) + (length (readings es st) - 25)"
    using len by simp
  then show d: "sensorData (run es st) = drop (length (readings es st) - 25) (readings es st)"
    unfolding eq by (simp add: slice_last_def)
  show "length (sensorData (run es st)) = 25" unfolding d using len by simp
next
  assume h: "ResetSystem \<notin> set es \<and> ClearAlerts \<notin> set es \<and> 8 < length (raised es st)"
  then have len: "8 < length (raised es st)" and ne: "raised es st \<noteq> []" by auto
  from h have eq: "alerts (run es st) = take 8 (rev (raised es st) @ alerts st)"
    by (simp add: alerts_run ne)
  show d: "alerts (run es st) = take 8 (rev (raised es st))"
    unfolding eq using len by simp
  show "length (alerts (run es st)) = 8" unfolding d using len by simp
qed

text \<open>
  From the initial state, the start button and 26 ticks with raw measurement 65: every
  tick appends a reading and raises an alert, so 25 readings and 8 alerts remain.
\<close>

theorem bounded_containers_witness:
  "ResetSystem \<notin> set spike_run \<and> ClearAlerts \<notin> set spike_run
   \<and> 25 < length (readings spike_run initial_state)
   \<and> 8 < length (raised spike_run initial_state)
   \<and> length (sensorData (run spike_run initial_state)) = 25
   \<and> sensorData (run spike_run initial_state) = drop 1 (readings spike_run initial_state)
   \<and> length (alerts (run spike_run initial_state)) = 8
   \<and> alerts (run spike_run initial_state) = take 8 (rev (raised spike_run initial_state))"
proof -
  have h: "ResetSystem \<notin> set spike_run \<and> ClearAlerts \<notin> set spike_run"
    by (simp add: spike_run_def)
  show ?thesis
    using bounded_containers [of spike_run initial_state] h
    by (simp add: spike_raised spike_readings)
qed

text \<open>
  C7. For a filter state with error covariance at least 0 and positive process and
  measurement noise, the innovation covariance, by which a step divides twice, is positive,
  and the error covariance the step returns is again at least 0. Hence the error covariance
  is at least 0 after any sequence of measurements from the initial state, and in every
  state the component reaches from its initial state.
\<close>

theorem kalman_step_safe:
  "(0 \<le> errorCovariance s \<and> 0 < processNoise s \<and> 0 < measurementNoise s \<longrightarrow>
      0 < innovationCov s \<and> 0 \<le> errorCovariance (kalmanFilter m s))
   \<and> 0 \<le> errorCovariance (kalman_run ms)
   \<and> 0 \<le> errorCovariance (kalmanState (run es initial_state))"
proof (intro conjI impI)
  assume "0 \<le> errorCovariance s \<and> 0 < processNoise s \<and> 0 < measurementNoise s"
  then have wf: "kalman_wf s" by (simp add: kalman_wf_def)
  then show "0 < innovationCov s" by (rule kalman_wf_innovationCov)
  from wf have "kalman_wf (kalmanFilter m s)" by (rule kalman_wf_step)
  then show "0 \<le> errorCovariance (kalmanFilter m s)" by (simp add: kalman_wf_def)
next
  show "0 \<le> errorCovariance (kalman_run ms)"
    using kalman_wf_run [of ms] by (simp add: kalman_wf_def)
next
  have "kalman_wf (kalmanState initial_state)"
    by (simp add: initial_state_def kalman_wf_init)
  then have "kalman_wf (kalmanState (run es initial_state))"
    by (rule kalman_wf_run_events)
  then show "0 \<le> errorCovariance (kalmanState (run es initial_state))"
    by (simp add: kalman_wf_def)
qed

text \<open>The initial filter state meets the three conditions; its step with measurement 70.\<close>

theorem kalman_step_safe_witness:
  "0 \<le> errorCovariance kalman_init \<and> 0 < processNoise kalman_init
   \<and> 0 < measurementNoise kalman_init
   \<and> 0 < innovationCov kalman_init
   \<and> 0 \<le> errorCovariance (kalmanFilter 70 kalman_init)"
proof -
  have h: "0 \<le> errorCovariance kalman_init \<and> 0 < processNoise kalman_init
           \<and> 0 < measurementNoise kalman_init"
    by (simp add: kalman_init_def)
  with kalman_step_safe [of kalman_init 70 "[]" "[]"] show ?thesis by blast
qed

text \<open>
  C8. From the initial filter state, the measurement 70 gives predicted covariance 1.01,
  innovation 25, innovation covariance 1.51, \<open>lambda = 62500 / 151\<close> (within 0.1 of 413.9
  and above 3.84), hence process noise 0.025, gain \<open>101 / 151\<close> (within 0.001 of 0.669),
  estimate \<open>9320 / 151\<close> (within 0.1 of 61.7) and error covariance \<open>101 / 302\<close> (within
  0.001 of 0.335). The innovation 25 on a fresh CUSUM state gives \<open>positive = 24.5\<close>, an
  anomaly, direction high.
\<close>

theorem end_to_end_scenario:
  "predictedErrorCov kalman_init = 1.01
   \<and> innovation_of 70 kalman_init = 25
   \<and> innovationCov kalman_init = 1.51
   \<and> lambda 70 kalman_init = 62500 / 151
   \<and> \<bar>lambda 70 kalman_init - 413.9\<bar> < 0.1
   \<and> lambda 70 kalman_init > 3.84
   \<and> processNoise (kalmanFilter 70 kalman_init) = 0.025
   \<and> kalmanGain kalman_init = 101 / 151
   \<and> \<bar>kalmanGain kalman_init - 0.669\<bar> < 0.001
   \<and> estimate (kalmanFilter 70 kalman_init) = 9320 / 151
   \<and> \<bar>estimate (kalmanFilter 70 kalman_init) - 61.7\<bar> < 0.1
   \<and> errorCovariance (kalmanFilter 70 kalman_init) = 101 / 302
   \<and> \<bar>errorCovariance (kalmanFilter 70 kalman_init) - 0.335\<bar> < 0.001
   \<and> innovation (kalmanFilter 70 kalman_init) = 25
   \<and> positive (cumsum_r (detectAnomaly 25 \<lparr>positive = 0, negative = 0\<rparr>)) = 24.5
   \<and> isAnomaly (detectAnomaly 25 \<lparr>positive = 0, negative = 0\<rparr>)
   \<and> type (detectAnomaly 25 \<lparr>positive = 0, negative = 0\<rparr>) = ''high''"
  by (simp add: kalman_init_def kalman_defs detectAnomaly_def Let_def)

text \<open>
  C9. With the measurement 45 at every tick from the initial filter state, the estimate is
  45 after every number of ticks and the error covariance after one more tick is never
  larger than before; this holds for all ticks, the first 50 among them.
\<close>

theorem constant_stream_convergence:
  "estimate (kalman_run (replicate n 45)) = 45
   \<and> errorCovariance (kalman_run (replicate (Suc n) 45))
       \<le> errorCovariance (kalman_run (replicate n 45))"
proof
  show "estimate (kalman_run (replicate n 45)) = 45"
    using calm_run [of n] by (rule calmD(1))
  show "errorCovariance (kalman_run (replicate (Suc n) 45))
          \<le> errorCovariance (kalman_run (replicate n 45))"
    using calm_step_le [OF calm_run [of n]] by (simp only: kalman_run_replicate_Suc)
qed

text \<open>
  C10. \<open>clearAlerts\<close> empties the alert list and changes nothing else: the filter state,
  the CUSUM sums, the history, the three counters, the running flag and the displayed
  values are those of the state before.
\<close>

theorem clearAlerts_frame:
  "alerts (clearAlerts st) = []
   \<and> kalmanState (clearAlerts st) = kalmanState st
   \<and> cumsum (clearAlerts st) = cumsum st
   \<and> sensorData (clearAlerts st) = sensorData st
   \<and> totalReadings (systemStats (clearAlerts st)) = totalReadings (systemStats st)
   \<and> anomaliesDetected (systemStats (clearAlerts st)) = anomaliesDetected (systemStats st)
   \<and> dataAccuracy (systemStats (clearAlerts st)) = dataAccuracy (systemStats st)
   \<and> isRunning (clearAlerts st) = isRunning st
   \<and> currentValues (clearAlerts st) = currentValues st"
  by (simp add: clearAlerts_def)

end
